theory Spec2Isabelle
  imports Main
begin

section \<open>Text\<close>

text \<open>
  Python text is modelled as \<open>string\<close>, each \<open>char\<close> read as one code point in the
  range U+0000 .. U+00FF.  On that range \<open>str.lower()\<close> works character by character.
  The hooks are modelled as run on a POSIX system (path separator \<open>/\<close>).
\<close>

definition lower_char :: "char \<Rightarrow> char" where
  "lower_char c =
     (let n = (of_char c :: nat)
      in if (65 \<le> n \<and> n \<le> 90) \<or> (192 \<le> n \<and> n \<le> 222 \<and> n \<noteq> 215)
         then char_of (n + 32) else c)"

definition lower :: "string \<Rightarrow> string" where
  "lower s = map lower_char s"

text \<open>\<open>startswith\<close>: \<open>pat\<close> is a prefix of \<open>s\<close>.\<close>

fun startswith :: "string \<Rightarrow> string \<Rightarrow> bool" where
  "startswith [] s = True"
| "startswith (p # ps) [] = False"
| "startswith (p # ps) (c # cs) = (p = c \<and> startswith ps cs)"

text \<open>Python's \<open>pat in s\<close> on text: \<open>pat\<close> occurs in \<open>s\<close> as a contiguous substring.\<close>

fun contains :: "string \<Rightarrow> string \<Rightarrow> bool" where
  "contains pat [] = (pat = [])"
| "contains pat (c # cs) = (startswith pat (c # cs) \<or> contains pat cs)"

section \<open>The input record\<close>

text \<open>
  \<open>json.load(sys.stdin)\<close> yields a Python value built from dictionaries, lists, text,
  numbers, booleans and \<open>None\<close>.  A dictionary is an association list read with
  \<open>map_of\<close>.  Numbers are kept as integers: the hooks never compute with one, and
  a float is treated like an integer wherever they look at the value.  Standard input that is not a JSON document is \<open>None\<close> at the type
  \<open>json option\<close>; \<open>json.load\<close> raises on it.
\<close>

datatype json =
    JNull
  | JBool bool
  | JNum int
  | JStr string
  | JArr "json list"
  | JObj "(string \<times> json) list"

datatype pyexn =
    JSONDecodeError
  | AttributeError
  | TypeError
  | ReError
  | OtherError string

text \<open>\<open>d.get(key, default)\<close>; a value that is not a dictionary has no \<open>get\<close>.\<close>

fun dict_get :: "json \<Rightarrow> string \<Rightarrow> json \<Rightarrow> pyexn + json" where
  "dict_get (JObj d) key dflt = (case map_of d key of None \<Rightarrow> Inr dflt | Some v \<Rightarrow> Inr v)"
| "dict_get _ key dflt = Inl AttributeError"

text \<open>
  The first two statements of every hook:
  \<^verbatim>\<open>data = json.load(sys.stdin)\<close> and
  \<^verbatim>\<open>field = data.get('tool_input', {}).get(name, '')\<close>.
\<close>

definition tool_input_field :: "string \<Rightarrow> json option \<Rightarrow> pyexn + json" where
  "tool_input_field name stdin =
     (case stdin of
        None \<Rightarrow> Inl JSONDecodeError
      | Some data \<Rightarrow>
          (case dict_get data ''tool_input'' (JObj []) of
             Inl e \<Rightarrow> Inl e
           | Inr ti \<Rightarrow> dict_get ti name (JStr [])))"

section \<open>How a hook process ends\<close>

text \<open>
  A process ends by \<open>sys.exit(n)\<close> or by an exception nobody catches; the interpreter
  then prints a traceback and the process status is 1.  \<open>out\<close> and \<open>err\<close> hold the
  texts handed to \<open>print\<close>, one entry per call, and \<open>ran\<close> the command lines handed to
  \<open>subprocess.run\<close>.
\<close>

datatype ending = Exit nat | Uncaught pyexn

record outcome =
  ending :: ending
  out :: "string list"
  err :: "string list"
  ran :: "string list list"

definition status :: "outcome \<Rightarrow> nat" where
  "status r = (case ending r of Exit n \<Rightarrow> n | Uncaught e \<Rightarrow> 1)"

definition sys_exit :: "nat \<Rightarrow> outcome" where
  "sys_exit n = \<lparr>ending = Exit n, out = [], err = [], ran = []\<rparr>"

definition uncaught :: "pyexn \<Rightarrow> outcome" where
  "uncaught e = \<lparr>ending = Uncaught e, out = [], err = [], ran = []\<rparr>"

section \<open>Regular expressions of the command policy\<close>

text \<open>
  The nine patterns use literal characters, \<open>\s\<close>, \<open>\.\<close>, \<open>.\<close> and the postfix
  repetitions \<open>+\<close> and \<open>*\<close> on a single character class.  \<open>re_compile\<close> reads exactly
  that fragment of Python's syntax and is \<open>None\<close> outside it.
\<close>

definition backslash :: char where
  "backslash = CHR 0x5C"

datatype atom = Lit char | Space | AnyChar

datatype quant = One | Plus | Star

datatype token = TAtom atom | TPlus | TStar

type_synonym regex = "(atom \<times> quant) list"

fun tokens :: "string \<Rightarrow> token list option" where
  "tokens [] = Some []"
| "tokens (c # cs) =
     (if c = backslash then
        (case cs of
           [] \<Rightarrow> None
         | d # ds \<Rightarrow>
             if d = CHR ''s'' then map_option (Cons (TAtom Space)) (tokens ds)
             else if d = CHR ''.'' then map_option (Cons (TAtom (Lit d))) (tokens ds)
             else None)
      else if c = CHR ''.'' then map_option (Cons (TAtom AnyChar)) (tokens cs)
      else if c = CHR ''+'' then map_option (Cons TPlus) (tokens cs)
      else if c = CHR ''*'' then map_option (Cons TStar) (tokens cs)
      else if c \<in> set ''?()[]{}|^$'' then None
      else map_option (Cons (TAtom (Lit c))) (tokens cs))"

fun items :: "token list \<Rightarrow> regex option" where
  "items [] = Some []"
| "items (TAtom a # TPlus # ts) = map_option (Cons (a, Plus)) (items ts)"
| "items (TAtom a # TStar # ts) = map_option (Cons (a, Star)) (items ts)"
| "items (TAtom a # ts) = map_option (Cons (a, One)) (items ts)"
| "items (_ # ts) = None"

definition re_compile :: "string \<Rightarrow> regex option" where
  "re_compile pattern = (case tokens pattern of None \<Rightarrow> None | Some ts \<Rightarrow> items ts)"

text \<open>
  \<open>\s\<close> on text is Unicode white space; below U+0100 that is TAB .. CR, FS .. US,
  SPACE, NEL and NO-BREAK SPACE.  \<open>.\<close> is any character but the line feed.
\<close>

definition is_space :: "char \<Rightarrow> bool" where
  "is_space c =
     (let n = (of_char c :: nat)
      in (9 \<le> n \<and> n \<le> 13) \<or> (28 \<le> n \<and> n \<le> 32) \<or> n = 133 \<or> n = 160)"

fun atom_matches :: "atom \<Rightarrow> char \<Rightarrow> bool" where
  "atom_matches (Lit d) c = (c = d)"
| "atom_matches Space c = is_space c"
| "atom_matches AnyChar c = (c \<noteq> CHR 0x0A)"

text \<open>
  \<open>match_here r s\<close>: the expression matches at the start of \<open>s\<close>.  A repetition first
  tries to take one more character and then falls back to the rest of the expression,
  the order of a backtracking matcher.
\<close>

fun match_here :: "regex \<Rightarrow> string \<Rightarrow> bool" where
  "match_here [] s = True"
| "match_here ((a, One) # r) [] = False"
| "match_here ((a, One) # r) (c # cs) = (atom_matches a c \<and> match_here r cs)"
| "match_here ((a, Plus) # r) [] = False"
| "match_here ((a, Plus) # r) (c # cs) = (atom_matches a c \<and> match_here ((a, Star) # r) cs)"
| "match_here ((a, Star) # r) [] = match_here r []"
| "match_here ((a, Star) # r) (c # cs) =
     ((atom_matches a c \<and> match_here ((a, Star) # r) cs) \<or> match_here r (c # cs))"

text \<open>\<open>re.search\<close> tries every start position from left to right.\<close>

fun search_from :: "regex \<Rightarrow> string \<Rightarrow> bool" where
  "search_from r [] = match_here r []"
| "search_from r (c # cs) = (match_here r (c # cs) \<or> search_from r cs)"

text \<open>\<open>re.search(pattern, subject)\<close>; a subject that is not text raises \<open>TypeError\<close>.\<close>

fun re_search :: "string \<Rightarrow> json \<Rightarrow> pyexn + bool" where
  "re_search pattern (JStr s) =
     (case re_compile pattern of None \<Rightarrow> Inl ReError | Some r \<Rightarrow> Inr (search_from r s))"
| "re_search pattern _ = Inl TypeError"

section \<open>hooks/security/dangerous-command-blocker.py\<close>

definition dangerous_patterns :: "string list" where
  "dangerous_patterns =
    [''rm'' @ backslash # ''s+-rf'' @ backslash # ''s+/'',
     ''chmod'' @ backslash # ''s+777'',
     ''sudo'' @ backslash # ''s+'',
     ''dd'' @ backslash # ''s+if='',
     ''mkfs'' @ backslash # ''.'',
     ''npm'' @ backslash # ''s+publish'',
     ''git'' @ backslash # ''s+push.*--force'',
     ''mv'' @ backslash # ''s+.*'' @ backslash # ''s+/'',
     ''>'' @ backslash # ''s*/dev/'']"

text \<open>Formatting a value into an f-string; only text is needed by the claims' inputs.\<close>

fun py_str :: "json \<Rightarrow> string" where
  "py_str (JStr s) = s"
| "py_str _ = []"

definition command_blocked :: "string \<Rightarrow> json \<Rightarrow> outcome" where
  "command_blocked pattern command =
     \<lparr>ending = Exit 2, out = [],
      err = [''BLOCKED: Dangerous command pattern detected: '' @ pattern,
             ''Command attempted: '' @ py_str command,
             CHR 0x0A # ''If this is intentional, run manually outside Claude Code.''],
      ran = []\<rparr>"

text \<open>The loop \<^verbatim>\<open>for pattern in dangerous_patterns\<close> followed by \<^verbatim>\<open>sys.exit(0)\<close>.\<close>

fun scan_patterns :: "string list \<Rightarrow> json \<Rightarrow> outcome" where
  "scan_patterns [] command = sys_exit 0"
| "scan_patterns (pattern # rest) command =
     (case re_search pattern command of
        Inl e \<Rightarrow> uncaught e
      | Inr True \<Rightarrow> command_blocked pattern command
      | Inr False \<Rightarrow> scan_patterns rest command)"

definition dangerous_command_blocker :: "json option \<Rightarrow> outcome" where
  "dangerous_command_blocker stdin =
     (case tool_input_field ''command'' stdin of
        Inl e \<Rightarrow> uncaught e
      | Inr command \<Rightarrow> scan_patterns dangerous_patterns command)"

section \<open>hooks/security/sensitive-file-guard.py\<close>

definition sensitive_patterns :: "string list" where
  "sensitive_patterns =
    [''.env'', ''.env.local'', ''.env.production'', ''.env.development'',
     ''.key'', ''.pem'', ''.p12'', ''.pfx'',
     ''credentials.json'', ''secrets.yaml'', ''secrets.json'',
     ''.git/config'', ''id_rsa'', ''id_ed25519'', ''id_dsa'',
     ''.aws/credentials'', ''.ssh/config'', ''password'', ''secret'']"

definition sensitive_dirs :: "string list" where
  "sensitive_dirs = [''.ssh/'', ''.aws/'', ''.gnupg/'', ''secrets/'', ''private/'']"

definition pattern_blocked :: "string \<Rightarrow> string \<Rightarrow> outcome" where
  "pattern_blocked pattern file_path =
     \<lparr>ending = Exit 2, out = [],
      err = [''BLOCKED: Sensitive file access detected: '' @ file_path,
             ''Pattern matched: '' @ pattern,
             CHR 0x0A # ''To edit sensitive files, use your editor directly.''],
      ran = []\<rparr>"

definition dir_blocked :: "string \<Rightarrow> outcome" where
  "dir_blocked file_path =
     \<lparr>ending = Exit 2, out = [],
      err = [''BLOCKED: File in sensitive directory: '' @ file_path],
      ran = []\<rparr>"

text \<open>The second loop, over \<open>sensitive_dirs\<close>, tests the path as given; then \<^verbatim>\<open>sys.exit(0)\<close>.\<close>

fun scan_dirs :: "string list \<Rightarrow> string \<Rightarrow> outcome" where
  "scan_dirs [] file_path = sys_exit 0"
| "scan_dirs (dir_pattern # rest) file_path =
     (if contains dir_pattern file_path then dir_blocked file_path
      else scan_dirs rest file_path)"

text \<open>The first loop, over \<open>sensitive_patterns\<close>, tests \<open>file_path.lower()\<close>.\<close>

fun scan_sensitive :: "string list \<Rightarrow> string \<Rightarrow> outcome" where
  "scan_sensitive [] file_path = scan_dirs sensitive_dirs file_path"
| "scan_sensitive (pattern # rest) file_path =
     (if contains pattern (lower file_path) then pattern_blocked pattern file_path
      else scan_sensitive rest file_path)"

text \<open>A \<open>file_path\<close> that is not text has no \<open>lower\<close>: the first test raises.\<close>

definition sensitive_file_guard :: "json option \<Rightarrow> outcome" where
  "sensitive_file_guard stdin =
     (case tool_input_field ''file_path'' stdin of
        Inl e \<Rightarrow> uncaught e
      | Inr (JStr file_path) \<Rightarrow> scan_sensitive sensitive_patterns file_path
      | Inr _ \<Rightarrow> uncaught AttributeError)"

section \<open>The world outside the process\<close>

text \<open>
  What \<open>subprocess.run\<close> can do: the command finishes with a return code, the
  executable is not found (\<open>FileNotFoundError\<close>), the timeout expires
  (\<open>TimeoutExpired\<close>), or some other exception is raised, kept with its text.
\<close>

datatype run_result = Completed int | NotFound | TimedOut | Failed string

text \<open>
  \<open>path_exists\<close> is \<open>os.path.exists\<close> on text and \<open>exists_nontext\<close> the same call on
  a value that is not text (it may raise).  \<open>getcwd\<close> is \<open>os.getcwd()\<close>, \<open>None\<close>
  when the working directory is gone (\<open>FileNotFoundError\<close>).  \<open>run env cmd t\<close> is
  \<open>subprocess.run\<close> of \<open>cmd\<close> with a timeout of \<open>t\<close> seconds.
\<close>

record env =
  path_exists :: "string \<Rightarrow> bool"
  exists_nontext :: "json \<Rightarrow> pyexn + bool"
  getcwd :: "string option"
  run :: "string list \<Rightarrow> nat \<Rightarrow> run_result"

text \<open>Truth value of a Python object, as in \<^verbatim>\<open>if not file_path\<close>.\<close>

fun truthy :: "json \<Rightarrow> bool" where
  "truthy JNull = False"
| "truthy (JBool b) = b"
| "truthy (JNum n) = (n \<noteq> 0)"
| "truthy (JStr s) = (s \<noteq> [])"
| "truthy (JArr xs) = (xs \<noteq> [])"
| "truthy (JObj d) = (d \<noteq> [])"

text \<open>\<open>s.rfind(c)\<close>: the last index of \<open>c\<close> in \<open>s\<close>, or \<open>-1\<close>.\<close>

definition rfind :: "char \<Rightarrow> string \<Rightarrow> int" where
  "rfind c s =
     (case filter (\<lambda>i. s ! i = c) (rev [0..<length s]) of
        [] \<Rightarrow> - 1
      | i # _ \<Rightarrow> int i)"

text \<open>
  \<open>os.path.splitext(p)[1]\<close>: the text from the last dot on, when that dot comes after
  the last \<open>/\<close> and some character of the file name before it is not a dot; else empty.
\<close>

definition splitext_ext :: "string \<Rightarrow> string" where
  "splitext_ext p =
     (let sepIndex = rfind (CHR ''/'') p;
          dotIndex = rfind (CHR ''.'') p
      in if dotIndex > sepIndex \<and>
            list_ex (\<lambda>i. p ! i \<noteq> CHR ''.'') [nat (sepIndex + 1)..<nat dotIndex]
         then drop (nat dotIndex) p else [])"

text \<open>The two glyphs of the messages lie outside the character range; they are written as their UTF-8 bytes.\<close>

definition check_mark :: string where
  "check_mark = [CHR 0xE2, CHR 0x9C, CHR 0x93]"

definition warning_sign :: string where
  "warning_sign = [CHR 0xE2, CHR 0x9A, CHR 0xA0, CHR 0xEF, CHR 0xB8, CHR 0x8F]"

section \<open>hooks/formatting/auto-format.py\<close>

definition formatters :: "(string \<times> string list) list" where
  "formatters =
    [(''.ts'', [''npx'', ''prettier'', ''--write'']),
     (''.tsx'', [''npx'', ''prettier'', ''--write'']),
     (''.js'', [''npx'', ''prettier'', ''--write'']),
     (''.jsx'', [''npx'', ''prettier'', ''--write'']),
     (''.py'', [''black'', ''--line-length'', ''100''])]"

text \<open>\<^verbatim>\<open>formatters[ext] + [file_path]\<close>, when \<^verbatim>\<open>ext in formatters\<close>.\<close>

definition formatter_cmd :: "string \<Rightarrow> string list option" where
  "formatter_cmd file_path =
     map_option (\<lambda>f. f @ [file_path]) (map_of formatters (splitext_ext file_path))"

text \<open>
  The \<open>try\<close> statement: \<open>check=True\<close> turns a nonzero return code into
  \<open>CalledProcessError\<close>; an exception outside the three handlers is not caught.
\<close>

definition format_file :: "env \<Rightarrow> string \<Rightarrow> outcome" where
  "format_file env file_path =
     (case formatter_cmd file_path of
        None \<Rightarrow> sys_exit 0
      | Some cmd \<Rightarrow>
          (case run env cmd 10 of
             Completed rc \<Rightarrow>
               if rc = 0
               then \<lparr>ending = Exit 0, out = [check_mark @ '' Formatted '' @ file_path],
                     err = [], ran = [cmd]\<rparr>
               else \<lparr>ending = Exit 1, out = [], err = [], ran = [cmd]\<rparr>
           | NotFound \<Rightarrow>
               \<lparr>ending = Exit 1, out = [], err = [''Formatter not available''], ran = [cmd]\<rparr>
           | TimedOut \<Rightarrow>
               \<lparr>ending = Exit 1, out = [], err = [''Formatter timeout''], ran = [cmd]\<rparr>
           | Failed e \<Rightarrow>
               \<lparr>ending = Uncaught (OtherError e), out = [], err = [], ran = [cmd]\<rparr>))"

text \<open>
  \<^verbatim>\<open>if not file_path or not os.path.exists(file_path): sys.exit(0)\<close>.  For a value
  that is not text and passes the guard, \<open>os.path.splitext\<close> raises \<open>TypeError\<close>.
\<close>

definition auto_format :: "env \<Rightarrow> json option \<Rightarrow> outcome" where
  "auto_format env stdin =
     (case tool_input_field ''file_path'' stdin of
        Inl e \<Rightarrow> uncaught e
      | Inr v \<Rightarrow>
          if \<not> truthy v then sys_exit 0
          else
            (case v of
               JStr file_path \<Rightarrow>
                 if \<not> path_exists env file_path then sys_exit 0
                 else format_file env file_path
             | _ \<Rightarrow>
                 (case exists_nontext env v of
                    Inl e \<Rightarrow> uncaught e
                  | Inr False \<Rightarrow> sys_exit 0
                  | Inr True \<Rightarrow> uncaught TypeError)))"

section \<open>hooks/testing/test-on-change.py\<close>

definition test_extensions :: "string list" where
  "test_extensions = [''.ts'', ''.tsx'', ''.js'', ''.jsx'', ''.py'']"

text \<open>The three guards that leave with \<^verbatim>\<open>sys.exit(0)\<close> before any command is built.\<close>

definition skipped :: "string \<Rightarrow> bool" where
  "skipped file_path =
     (splitext_ext file_path \<notin> set test_extensions
      \<or> (contains ''test'' (lower file_path) \<or> contains ''__tests__'' file_path)
      \<or> contains ''.claude'' file_path)"

definition test_cmd :: "string \<Rightarrow> string list" where
  "test_cmd file_path =
     (if splitext_ext file_path = ''.py''
      then [''pytest'', ''-x'', ''-q'', ''--tb=short'']
      else [''npm'', ''test'', ''--'', ''--bail'', ''--findRelatedTests'', file_path])"

text \<open>
  The \<open>try\<close> statement.  \<^verbatim>\<open>sys.exit(1)\<close> inside it raises \<open>SystemExit\<close>, which no
  handler catches; every handler falls through to the final \<^verbatim>\<open>sys.exit(0)\<close>.
  \<open>os.getcwd()\<close> is evaluated inside the \<open>try\<close>, before the command is run.
\<close>

definition run_tests :: "env \<Rightarrow> string \<Rightarrow> outcome" where
  "run_tests env file_path =
     (case getcwd env of
        None \<Rightarrow> sys_exit 0
      | Some dir \<Rightarrow>
          (case run env (test_cmd file_path) 60 of
             Completed rc \<Rightarrow>
               if rc \<noteq> 0
               then \<lparr>ending = Exit 1, out = [],
                     err = [warning_sign @ '' Tests failed after editing '' @ file_path],
                     ran = [test_cmd file_path]\<rparr>
               else \<lparr>ending = Exit 0,
                     out = [check_mark @ '' Tests passing for '' @ file_path],
                     err = [], ran = [test_cmd file_path]\<rparr>
           | NotFound \<Rightarrow>
               \<lparr>ending = Exit 0, out = [], err = [], ran = [test_cmd file_path]\<rparr>
           | TimedOut \<Rightarrow>
               \<lparr>ending = Exit 0, out = [], err = [''Test timeout for '' @ file_path],
                ran = [test_cmd file_path]\<rparr>
           | Failed e \<Rightarrow>
               \<lparr>ending = Exit 0, out = [], err = [''Could not run tests: '' @ e],
                ran = [test_cmd file_path]\<rparr>))"

text \<open>A value that is not text and passes \<^verbatim>\<open>if not file_path\<close> makes \<open>os.path.splitext\<close> raise.\<close>

definition test_on_change :: "env \<Rightarrow> json option \<Rightarrow> outcome" where
  "test_on_change env stdin =
     (case tool_input_field ''file_path'' stdin of
        Inl e \<Rightarrow> uncaught e
      | Inr v \<Rightarrow>
          if \<not> truthy v then sys_exit 0
          else
            (case v of
               JStr file_path \<Rightarrow>
                 if skipped file_path then sys_exit 0 else run_tests env file_path
             | _ \<Rightarrow> uncaught TypeError))"

section \<open>Shapes of the input record\<close>

text \<open>
  The record the host sends: a dictionary whose \<open>tool_input\<close>, when present, is a
  dictionary.  \<open>well_formed\<close> asks in addition that \<open>command\<close> and \<open>file_path\<close>,
  when present, are text.
\<close>

fun is_dict :: "json \<Rightarrow> bool" where
  "is_dict (JObj d) = True"
| "is_dict _ = False"

fun is_text :: "json \<Rightarrow> bool" where
  "is_text (JStr s) = True"
| "is_text _ = False"

definition shaped :: "json option \<Rightarrow> bool" where
  "shaped stdin =
     (case stdin of
        Some (JObj d) \<Rightarrow> (case map_of d ''tool_input'' of None \<Rightarrow> True | Some ti \<Rightarrow> is_dict ti)
      | _ \<Rightarrow> False)"

definition well_formed :: "json option \<Rightarrow> bool" where
  "well_formed stdin =
     (case tool_input_field ''command'' stdin of
        Inl e \<Rightarrow> False
      | Inr c \<Rightarrow>
          (case tool_input_field ''file_path'' stdin of
             Inl e \<Rightarrow> False
           | Inr p \<Rightarrow> is_text c \<and> is_text p))"

text \<open>A record that carries a given file path, or a given command, and nothing else.\<close>

definition file_record :: "string \<Rightarrow> json option" where
  "file_record file_path = Some (JObj [(''tool_input'', JObj [(''file_path'', JStr file_path)])])"

definition command_record :: "string \<Rightarrow> json option" where
  "command_record command = Some (JObj [(''tool_input'', JObj [(''command'', JStr command)])])"

text \<open>
  A world for concrete runs: every path exists or none does, and every external command
  has the same result.
\<close>

definition world :: "bool \<Rightarrow> run_result \<Rightarrow> env" where
  "world present r =
     \<lparr>path_exists = (\<lambda>p. present), exists_nontext = (\<lambda>v. Inl TypeError),
      getcwd = Some ''/work'', run = (\<lambda>cmd t. r)\<rparr>"

text \<open>The key \<open>name\<close> is missing from a record of the expected shape.\<close>

definition absent :: "string \<Rightarrow> json option \<Rightarrow> bool" where
  "absent name stdin =
     (case stdin of
        Some (JObj d) \<Rightarrow>
          (case map_of d ''tool_input'' of
             None \<Rightarrow> True
           | Some (JObj ti) \<Rightarrow> map_of ti name = None
           | Some _ \<Rightarrow> False)
      | _ \<Rightarrow> False)"

text \<open>The field \<open>name\<close> is not populated: it is missing, or it is the empty text.\<close>

definition unpopulated :: "string \<Rightarrow> json option \<Rightarrow> bool" where
  "unpopulated name stdin =
     (case stdin of
        Some (JObj d) \<Rightarrow>
          (case map_of d ''tool_input'' of
             None \<Rightarrow> True
           | Some (JObj ti) \<Rightarrow> map_of ti name \<in> {None, Some (JStr [])}
           | Some _ \<Rightarrow> False)
      | _ \<Rightarrow> False)"

text \<open>The first pattern of the command policy, \<open>rm\s+-rf\s+/\<close>, as \<open>re_compile\<close> reads it.\<close>

definition rm_rule :: regex where
  "rm_rule =
     [(Lit (CHR ''r''), One), (Lit (CHR ''m''), One), (Space, Plus), (Lit (CHR ''-''), One),
      (Lit (CHR ''r''), One), (Lit (CHR ''f''), One), (Space, Plus), (Lit (CHR ''/''), One)]"

section \<open>Substring containment\<close>

lemma startswith_iff: "startswith pat s \<longleftrightarrow> (\<exists>w. s = pat @ w)"
  by (induction pat s rule: startswith.induct) auto

lemma contains_iff: "contains pat s \<longleftrightarrow> (\<exists>u w. s = u @ pat @ w)"
proof (induction s)
  case Nil
  then show ?case by auto
next
  case (Cons c cs)
  show ?case
  proof
    assume "contains pat (c # cs)"
    then consider "startswith pat (c # cs)" | "contains pat cs" by auto
    then show "\<exists>u w. c # cs = u @ pat @ w"
    proof cases
      case 1
      then obtain w where "c # cs = pat @ w" using startswith_iff by blast
      then have "c # cs = [] @ pat @ w" by simp
      then show ?thesis by blast
    next
      case 2
      then obtain u w where "cs = u @ pat @ w" using Cons.IH by blast
      then have "c # cs = (c # u) @ pat @ w" by simp
      then show ?thesis by blast
    qed
  next
    assume "\<exists>u w. c # cs = u @ pat @ w"
    then obtain u w where e: "c # cs = u @ pat @ w" by blast
    show "contains pat (c # cs)"
    proof (cases u)
      case Nil
      with e have "startswith pat (c # cs)" using startswith_iff by auto
      then show ?thesis by simp
    next
      case (Cons a u')
      with e have "cs = u' @ pat @ w" by simp
      then have "contains pat cs" using Cons.IH by blast
      then show ?thesis by simp
    qed
  qed
qed

lemma contains_lower: "contains v p \<Longrightarrow> contains (lower v) (lower p)"
  unfolding contains_iff lower_def by (metis map_append)

section \<open>Matching the recursive delete rule\<close>

lemma match_star_run:
  "\<forall>c\<in>set s. atom_matches a c \<Longrightarrow> match_here r t \<Longrightarrow> match_here ((a, Star) # r) (s @ t)"
proof (induction s)
  case Nil
  then show ?case by (cases t) auto
next
  case (Cons c s)
  then show ?case by simp
qed

lemma match_plus_run:
  "s \<noteq> [] \<Longrightarrow> \<forall>c\<in>set s. atom_matches a c \<Longrightarrow> match_here r t \<Longrightarrow>
     match_here ((a, Plus) # r) (s @ t)"
  by (cases s) (auto simp: match_star_run)

lemma search_from_append: "match_here r v \<Longrightarrow> search_from r (u @ v)"
proof (induction u)
  case Nil
  then show ?case by (cases v) auto
next
  case (Cons c u)
  then show ?case by simp
qed

lemma compile_rm: "re_compile (''rm'' @ backslash # ''s+-rf'' @ backslash # ''s+/'') = Some rm_rule"
  by (simp add: re_compile_def backslash_def rm_rule_def)

lemma rm_rule_matches:
  assumes "s1 \<noteq> []" "s2 \<noteq> []" "\<forall>c\<in>set s1. is_space c" "\<forall>c\<in>set s2. is_space c"
  shows "match_here rm_rule (''rm'' @ s1 @ ''-rf'' @ s2 @ ''/'' @ w)"
proof -
  have 1: "match_here [(Lit CHR ''/'', One)] (''/'' @ w)" by simp
  have 2: "match_here [(Space, Plus), (Lit CHR ''/'', One)] (s2 @ ''/'' @ w)"
    using assms(2,4) 1 by (intro match_plus_run) auto
  have 3: "match_here [(Lit CHR ''-'', One), (Lit CHR ''r'', One), (Lit CHR ''f'', One), (Space, Plus), (Lit CHR ''/'', One)]
     (''-rf'' @ s2 @ ''/'' @ w)" using 2 by simp
  have 4: "match_here [(Space, Plus), (Lit CHR ''-'', One), (Lit CHR ''r'', One), (Lit CHR ''f'', One), (Space, Plus), (Lit CHR ''/'', One)]
     (s1 @ ''-rf'' @ s2 @ ''/'' @ w)"
    using assms(1,3) 3 by (intro match_plus_run) auto
  then show ?thesis by (simp add: rm_rule_def)
qed

text \<open>
  The converse direction: wherever \<open>re.search\<close> finds the rule, the text has that
  form.  So the rule matches exactly the texts that contain \<open>rm\<close>, white space,
  \<open>-rf\<close>, white space and \<open>/\<close> in a row.
\<close>

lemma match_star_split:
  "match_here ((a, Star) # r) s \<Longrightarrow>
     \<exists>s1 t. s = s1 @ t \<and> (\<forall>c\<in>set s1. atom_matches a c) \<and> match_here r t"
proof (induction s)
  case Nil
  then show ?case by simp
next
  case (Cons c cs)
  from Cons.prems consider "atom_matches a c" "match_here ((a, Star) # r) cs"
    | "match_here r (c # cs)" by auto
  then show ?case
  proof cases
    case 1
    then obtain s1 t where "cs = s1 @ t" "\<forall>c\<in>set s1. atom_matches a c" "match_here r t"
      using Cons.IH by blast
    then have "c # cs = (c # s1) @ t \<and> (\<forall>x\<in>set (c # s1). atom_matches a x) \<and> match_here r t"
      using 1(1) by simp
    then show ?thesis by blast
  next
    case 2
    then have "c # cs = [] @ (c # cs) \<and> (\<forall>x\<in>set []. atom_matches a x) \<and> match_here r (c # cs)"
      by simp
    then show ?thesis by blast
  qed
qed

lemma match_plus_split:
  assumes "match_here ((a, Plus) # r) s"
  shows "\<exists>s1 t. s = s1 @ t \<and> s1 \<noteq> [] \<and> (\<forall>c\<in>set s1. atom_matches a c) \<and> match_here r t"
proof (cases s)
  case Nil
  with assms show ?thesis by simp
next
  case (Cons c cs)
  with assms have c: "atom_matches a c" and "match_here ((a, Star) # r) cs" by simp_all
  then obtain s1 t where "cs = s1 @ t" "\<forall>c\<in>set s1. atom_matches a c" "match_here r t"
    using match_star_split by blast
  then have "s = (c # s1) @ t \<and> c # s1 \<noteq> [] \<and> (\<forall>x\<in>set (c # s1). atom_matches a x)
      \<and> match_here r t"
    using c Cons by simp
  then show ?thesis by blast
qed

lemma match_lit_split: "match_here ((Lit d, One) # r) s \<Longrightarrow> \<exists>t. s = d # t \<and> match_here r t"
  by (cases s) auto

lemma search_from_split: "search_from r s \<Longrightarrow> \<exists>u v. s = u @ v \<and> match_here r v"
proof (induction s)
  case Nil
  then show ?case by simp
next
  case (Cons c cs)
  from Cons.prems consider "match_here r (c # cs)" | "search_from r cs" by auto
  then show ?case
  proof cases
    case 1
    then have "c # cs = [] @ (c # cs) \<and> match_here r (c # cs)" by simp
    then show ?thesis by blast
  next
    case 2
    then obtain u v where "cs = u @ v" "match_here r v" using Cons.IH by blast
    then have "c # cs = (c # u) @ v \<and> match_here r v" by simp
    then show ?thesis by blast
  qed
qed

lemma rm_rule_only:
  assumes "match_here rm_rule v"
  shows "\<exists>s1 s2 w. v = ''rm'' @ s1 @ ''-rf'' @ s2 @ ''/'' @ w \<and> s1 \<noteq> [] \<and> s2 \<noteq> []
           \<and> (\<forall>c\<in>set s1. is_space c) \<and> (\<forall>c\<in>set s2. is_space c)"
proof -
  from assms obtain t1 where t1: "v = CHR ''r'' # t1"
    "match_here [(Lit (CHR ''m''), One), (Space, Plus), (Lit (CHR ''-''), One),
      (Lit (CHR ''r''), One), (Lit (CHR ''f''), One), (Space, Plus), (Lit (CHR ''/''), One)] t1"
    unfolding rm_rule_def using match_lit_split by blast
  from t1(2) obtain t2 where t2: "t1 = CHR ''m'' # t2"
    "match_here [(Space, Plus), (Lit (CHR ''-''), One),
      (Lit (CHR ''r''), One), (Lit (CHR ''f''), One), (Space, Plus), (Lit (CHR ''/''), One)] t2"
    using match_lit_split by blast
  from t2(2) obtain s1 t3 where t3: "t2 = s1 @ t3" "s1 \<noteq> []" "\<forall>c\<in>set s1. atom_matches Space c"
    "match_here [(Lit (CHR ''-''), One),
      (Lit (CHR ''r''), One), (Lit (CHR ''f''), One), (Space, Plus), (Lit (CHR ''/''), One)] t3"
    using match_plus_split by blast
  from t3(4) obtain t4 where t4: "t3 = CHR ''-'' # t4"
    "match_here [(Lit (CHR ''r''), One), (Lit (CHR ''f''), One), (Space, Plus),
      (Lit (CHR ''/''), One)] t4"
    using match_lit_split by blast
  from t4(2) obtain t5 where t5: "t4 = CHR ''r'' # t5"
    "match_here [(Lit (CHR ''f''), One), (Space, Plus), (Lit (CHR ''/''), One)] t5"
    using match_lit_split by blast
  from t5(2) obtain t6 where t6: "t5 = CHR ''f'' # t6"
    "match_here [(Space, Plus), (Lit (CHR ''/''), One)] t6"
    using match_lit_split by blast
  from t6(2) obtain s2 t7 where t7: "t6 = s2 @ t7" "s2 \<noteq> []" "\<forall>c\<in>set s2. atom_matches Space c"
    "match_here [(Lit (CHR ''/''), One)] t7"
    using match_plus_split by blast
  from t7(4) obtain w where w: "t7 = CHR ''/'' # w"
    using match_lit_split by blast
  have "v = ''rm'' @ s1 @ ''-rf'' @ s2 @ ''/'' @ w"
    using t1(1) t2(1) t3(1) t4(1) t5(1) t6(1) t7(1) w by simp
  then show ?thesis using t3(2,3) t7(2,3) by auto
qed

lemma rm_rule_search_iff:
  "search_from rm_rule cmd \<longleftrightarrow>
     (\<exists>u s1 s2 w. cmd = u @ ''rm'' @ s1 @ ''-rf'' @ s2 @ ''/'' @ w \<and> s1 \<noteq> [] \<and> s2 \<noteq> []
        \<and> (\<forall>c\<in>set s1. is_space c) \<and> (\<forall>c\<in>set s2. is_space c))"
proof
  assume "search_from rm_rule cmd"
  then obtain u v where "cmd = u @ v" "match_here rm_rule v"
    using search_from_split by blast
  then show "\<exists>u s1 s2 w. cmd = u @ ''rm'' @ s1 @ ''-rf'' @ s2 @ ''/'' @ w \<and> s1 \<noteq> [] \<and> s2 \<noteq> []
        \<and> (\<forall>c\<in>set s1. is_space c) \<and> (\<forall>c\<in>set s2. is_space c)"
    using rm_rule_only by blast
next
  assume "\<exists>u s1 s2 w. cmd = u @ ''rm'' @ s1 @ ''-rf'' @ s2 @ ''/'' @ w \<and> s1 \<noteq> [] \<and> s2 \<noteq> []
        \<and> (\<forall>c\<in>set s1. is_space c) \<and> (\<forall>c\<in>set s2. is_space c)"
  then obtain u s1 s2 w where h: "cmd = u @ ''rm'' @ s1 @ ''-rf'' @ s2 @ ''/'' @ w"
    "s1 \<noteq> []" "s2 \<noteq> []" "\<forall>c\<in>set s1. is_space c" "\<forall>c\<in>set s2. is_space c"
    by blast
  have "match_here rm_rule (''rm'' @ s1 @ ''-rf'' @ s2 @ ''/'' @ w)"
    using h(2-5) by (rule rm_rule_matches)
  then show "search_from rm_rule cmd"
    unfolding h(1) by (rule search_from_append)
qed

text \<open>
  Claim C1.  Whenever the command text contains \<open>rm\<close>, white space, \<open>-rf\<close>, white space
  and \<open>/\<close> in a row (the texts the rule \<open>rm\s+-rf\s+/\<close> matches), the command blocker
  ends with status 2, and the first line it prints to standard error names that rule.
\<close>

theorem blocker_blocks_root_recursive_delete:
  assumes "tool_input_field ''command'' stdin = Inr (JStr cmd)"
    and "cmd = u @ ''rm'' @ s1 @ ''-rf'' @ s2 @ ''/'' @ w"
    and "s1 \<noteq> []" and "s2 \<noteq> []"
    and "\<forall>c\<in>set s1. is_space c" and "\<forall>c\<in>set s2. is_space c"
  shows "dangerous_command_blocker stdin =
           \<lparr>ending = Exit 2, out = [],
            err = [''BLOCKED: Dangerous command pattern detected: ''
                     @ ''rm'' @ backslash # ''s+-rf'' @ backslash # ''s+/'',
                   ''Command attempted: '' @ cmd,
                   CHR 0x0A # ''If this is intentional, run manually outside Claude Code.''],
            ran = []\<rparr>
         \<and> status (dangerous_command_blocker stdin) = 2"
proof -
  have "match_here rm_rule (''rm'' @ s1 @ ''-rf'' @ s2 @ ''/'' @ w)"
    using assms(3-6) by (rule rm_rule_matches)
  then have "search_from rm_rule cmd"
    unfolding assms(2) by (rule search_from_append)
  then have "re_search (''rm'' @ backslash # ''s+-rf'' @ backslash # ''s+/'') (JStr cmd) = Inr True"
    using compile_rm by simp
  then have "scan_patterns dangerous_patterns (JStr cmd) =
      command_blocked (''rm'' @ backslash # ''s+-rf'' @ backslash # ''s+/'') (JStr cmd)"
    by (simp add: dangerous_patterns_def)
  then show ?thesis
    using assms(1) by (simp add: dangerous_command_blocker_def command_blocked_def status_def)
qed

theorem blocker_blocks_root_recursive_delete_witness:
  "dangerous_command_blocker (command_record ''cd /tmp && rm -rf /'') =
           \<lparr>ending = Exit 2, out = [],
            err = [''BLOCKED: Dangerous command pattern detected: ''
                     @ ''rm'' @ backslash # ''s+-rf'' @ backslash # ''s+/'',
                   ''Command attempted: cd /tmp && rm -rf /'',
                   CHR 0x0A # ''If this is intentional, run manually outside Claude Code.''],
            ran = []\<rparr>
         \<and> status (dangerous_command_blocker (command_record ''cd /tmp && rm -rf /'')) = 2"
proof -
  have f: "tool_input_field ''command'' (command_record ''cd /tmp && rm -rf /'')
             = Inr (JStr ''cd /tmp && rm -rf /'')"
    by (simp add: tool_input_field_def command_record_def)
  have d: "''cd /tmp && rm -rf /'' = ''cd /tmp && '' @ ''rm'' @ '' '' @ ''-rf'' @ '' '' @ ''/'' @ ''''"
    by simp
  have s: "\<forall>c\<in>set '' ''. is_space c" by (simp add: is_space_def)
  show ?thesis
    using blocker_blocks_root_recursive_delete [OF f d _ _ s s] by (simp add: status_def)
qed

section \<open>Evaluating the definitions on concrete text\<close>

lemmas text_eval = lower_def lower_char_def char_of_def bit_Suc_0_iff

lemma splitext_app: "splitext_ext ''/src/app.py'' = ''.py''"
  by code_simp

lemma not_skipped_app: "\<not> skipped ''/src/app.py''"
  by code_simp

lemma test_cmd_app: "test_cmd ''/src/app.py'' = [''pytest'', ''-x'', ''-q'', ''--tb=short'']"
  by (simp add: test_cmd_def splitext_app)

lemma formatter_cmd_app:
  "formatter_cmd ''/src/app.py'' = Some [''black'', ''--line-length'', ''100'', ''/src/app.py'']"
  by (simp add: formatter_cmd_def splitext_app formatters_def)

lemma splitext_empty: "splitext_ext [] = []"
  by (simp add: splitext_ext_def rfind_def)

lemma formatter_cmd_empty: "formatter_cmd [] = None"
  by (simp add: formatter_cmd_def splitext_empty formatters_def)

lemma skipped_empty: "skipped []"
  by (simp add: skipped_def splitext_empty test_extensions_def)

lemma all_compile: "\<forall>p\<in>set dangerous_patterns. re_compile p \<noteq> None"
  by (simp add: dangerous_patterns_def re_compile_def backslash_def)

lemma empty_command_allowed: "scan_patterns dangerous_patterns (JStr []) = sys_exit 0"
  by (simp add: dangerous_patterns_def re_compile_def backslash_def)

lemma empty_path_allowed: "scan_sensitive sensitive_patterns [] = sys_exit 0"
  by (simp add: sensitive_patterns_def sensitive_dirs_def lower_def)

section \<open>The path policy\<close>

lemma field_file_record: "tool_input_field ''file_path'' (file_record p) = Inr (JStr p)"
  by (simp add: tool_input_field_def file_record_def)

lemma field_command_record: "tool_input_field ''command'' (command_record c) = Inr (JStr c)"
  by (simp add: tool_input_field_def command_record_def)

lemma scan_sensitive_hit:
  "k \<in> set ps \<Longrightarrow> contains k (lower p) \<Longrightarrow>
     \<exists>pat\<in>set ps. contains pat (lower p) \<and> scan_sensitive ps p = pattern_blocked pat p"
  by (induction ps) auto

lemma status_pattern_blocked: "status (pattern_blocked pat p) = 2"
  by (simp add: status_def pattern_blocked_def)

lemma readme_allowed:
  "sensitive_file_guard (file_record ''/home/user/project/readme.md'') = sys_exit 0"
  by (simp add: sensitive_file_guard_def field_file_record sensitive_patterns_def
      sensitive_dirs_def text_eval)

lemma readme_no_rule:
  "(\<forall>pat\<in>set sensitive_patterns. \<not> contains pat (lower ''/home/user/project/readme.md''))
   \<and> (\<forall>d\<in>set sensitive_dirs. \<not> contains d ''/home/user/project/readme.md'')"
  by (simp add: sensitive_patterns_def sensitive_dirs_def text_eval)

text \<open>
  Claim C2.  A file path that contains \<open>.env\<close>, \<open>id_rsa\<close> or \<open>secret\<close>, in any letter
  casing, makes the sensitive-file guard end with status 2, blocked by a rule of the first
  tier; on \<open>/home/user/project/readme.md\<close> no rule of either tier matches and the guard
  ends with status 0.
\<close>

theorem guard_blocks_env_rsa_secret:
  "(tool_input_field ''file_path'' stdin = Inr (JStr p) \<and> contains v p
      \<and> lower v \<in> {''.env'', ''id_rsa'', ''secret''}
    \<longrightarrow> status (sensitive_file_guard stdin) = 2
        \<and> (\<exists>pat\<in>set sensitive_patterns. contains pat (lower p)
              \<and> sensitive_file_guard stdin = pattern_blocked pat p))
   \<and> sensitive_file_guard (file_record ''/home/user/project/readme.md'') = sys_exit 0
   \<and> status (sensitive_file_guard (file_record ''/home/user/project/readme.md'')) = 0
   \<and> (\<forall>pat\<in>set sensitive_patterns. \<not> contains pat (lower ''/home/user/project/readme.md''))
   \<and> (\<forall>d\<in>set sensitive_dirs. \<not> contains d ''/home/user/project/readme.md'')"
proof -
  have block: "status (sensitive_file_guard stdin) = 2
        \<and> (\<exists>pat\<in>set sensitive_patterns. contains pat (lower p)
              \<and> sensitive_file_guard stdin = pattern_blocked pat p)"
    if f: "tool_input_field ''file_path'' stdin = Inr (JStr p)" and c: "contains v p"
      and k: "lower v \<in> {''.env'', ''id_rsa'', ''secret''}"
  proof -
    have "lower v \<in> set sensitive_patterns"
      using k by (auto simp: sensitive_patterns_def)
    moreover have "contains (lower v) (lower p)"
      using c by (rule contains_lower)
    ultimately obtain pat where pat: "pat \<in> set sensitive_patterns" "contains pat (lower p)"
      "scan_sensitive sensitive_patterns p = pattern_blocked pat p"
      using scan_sensitive_hit by blast
    have g: "sensitive_file_guard stdin = pattern_blocked pat p"
      using f pat(3) by (simp add: sensitive_file_guard_def)
    show ?thesis using g pat(1,2) status_pattern_blocked by auto
  qed
  have "status (sensitive_file_guard (file_record ''/home/user/project/readme.md'')) = 0"
    unfolding readme_allowed by (simp add: status_def sys_exit_def)
  then show ?thesis using block readme_allowed readme_no_rule by blast
qed

theorem guard_blocks_env_rsa_secret_witness:
  "status (sensitive_file_guard (file_record ''/srv/app/My_SECRET.txt'')) = 2
   \<and> status (sensitive_file_guard (file_record ''/home/user/project/readme.md'')) = 0"
proof -
  have c: "contains ''SECRET'' ''/srv/app/My_SECRET.txt''" by simp
  have "lower ''SECRET'' = ''secret''" by (simp add: text_eval)
  then have k: "lower ''SECRET'' \<in> {''.env'', ''id_rsa'', ''secret''}" by simp
  show ?thesis
    using guard_blocks_env_rsa_secret [of "file_record ''/srv/app/My_SECRET.txt''"
        "''/srv/app/My_SECRET.txt''" "''SECRET''"] field_file_record c k
    by blast
qed

text \<open>
  Claim C5.  Matching of the path rules is not case-insensitive throughout: the rules of
  the second tier are tested against the path as given.  \<open>/home/user/.ssh/known_hosts\<close>
  is blocked with status 2, while its casing variant \<open>/home/user/.SSH/known_hosts\<close>
  passes both tiers and ends with status 0.
\<close>

theorem guard_dirs_are_case_sensitive:
  "lower ''/home/user/.SSH/known_hosts'' = lower ''/home/user/.ssh/known_hosts''
   \<and> status (sensitive_file_guard (file_record ''/home/user/.ssh/known_hosts'')) = 2
   \<and> sensitive_file_guard (file_record ''/home/user/.SSH/known_hosts'') = sys_exit 0
   \<and> status (sensitive_file_guard (file_record ''/home/user/.SSH/known_hosts'')) = 0"
proof -
  have 1: "lower ''/home/user/.SSH/known_hosts'' = lower ''/home/user/.ssh/known_hosts''"
    by (simp add: text_eval)
  have 2: "status (sensitive_file_guard (file_record ''/home/user/.ssh/known_hosts'')) = 2"
    by (simp add: sensitive_file_guard_def field_file_record sensitive_patterns_def
      sensitive_dirs_def text_eval status_def sys_exit_def dir_blocked_def)
  have 3: "sensitive_file_guard (file_record ''/home/user/.SSH/known_hosts'') = sys_exit 0"
    by (simp add: sensitive_file_guard_def field_file_record sensitive_patterns_def
      sensitive_dirs_def text_eval status_def sys_exit_def dir_blocked_def)
  have 4: "status (sensitive_file_guard (file_record ''/home/user/.SSH/known_hosts'')) = 0"
    by (simp add: sensitive_file_guard_def field_file_record sensitive_patterns_def
      sensitive_dirs_def text_eval status_def sys_exit_def dir_blocked_def)
  show ?thesis using 1 2 3 4 by blast
qed

lemma status_sys_exit: "status (sys_exit n) = n"
  by (simp add: status_def sys_exit_def)

lemma status_uncaught: "status (uncaught e) = 1"
  by (simp add: status_def uncaught_def)

lemma record_cases:
  obtains (undecodable) "stdin = None"
  | (not_dict) data where "stdin = Some data" "\<not> is_dict data"
  | (no_tool_input) d where "stdin = Some (JObj d)" "map_of d ''tool_input'' = None"
  | (bad_tool_input) d ti where "stdin = Some (JObj d)" "map_of d ''tool_input'' = Some ti"
      "\<not> is_dict ti"
  | (tool_input) d ti where "stdin = Some (JObj d)" "map_of d ''tool_input'' = Some (JObj ti)"
proof (cases stdin)
  case None
  then show ?thesis by (rule undecodable)
next
  case (Some data)
  show ?thesis
  proof (cases data)
    case (JObj d)
    show ?thesis
    proof (cases "map_of d ''tool_input''")
      case None
      then show ?thesis using Some JObj no_tool_input by simp
    next
      case ti: (Some v)
      show ?thesis
      proof (cases "is_dict v")
        case True
        then obtain e where "v = JObj e" by (cases v) simp_all
        then show ?thesis using Some JObj ti tool_input by simp
      next
        case False
        then show ?thesis using Some JObj ti bad_tool_input by simp
      qed
    qed
  qed (use Some not_dict in simp_all)
qed

lemma absent_field: "absent name stdin \<Longrightarrow> tool_input_field name stdin = Inr (JStr [])"
  by (cases stdin rule: record_cases)
    (auto simp: absent_def tool_input_field_def split: json.splits)

lemma unpopulated_field: "unpopulated name stdin \<Longrightarrow> tool_input_field name stdin = Inr (JStr [])"
  by (cases stdin rule: record_cases)
    (auto simp: unpopulated_def tool_input_field_def split: json.splits)

lemma shaped_field: "shaped stdin \<Longrightarrow> \<exists>v. tool_input_field name stdin = Inr v"
  by (cases stdin rule: record_cases)
    (auto simp: shaped_def tool_input_field_def split: json.splits option.splits)

lemma dict_get_not_dict: "\<not> is_dict v \<Longrightarrow> dict_get v key dflt = Inl AttributeError"
  by (cases v) simp_all

lemma unshaped_field: "\<not> shaped stdin \<Longrightarrow> \<exists>e. \<forall>name. tool_input_field name stdin = Inl e"
proof (cases stdin)
  case None
  then show ?thesis by (simp add: tool_input_field_def)
next
  case (Some data)
  assume n: "\<not> shaped stdin"
  show ?thesis
  proof (cases "is_dict data")
    case False
    then show ?thesis using Some by (simp add: tool_input_field_def dict_get_not_dict)
  next
    case True
    then obtain d where d: "data = JObj d" by (cases data) simp_all
    with n Some obtain ti where ti: "map_of d ''tool_input'' = Some ti" "\<not> is_dict ti"
      by (auto simp: shaped_def split: option.splits)
    then show ?thesis using Some d by (simp add: tool_input_field_def dict_get_not_dict)
  qed
qed

lemma blocker_empty:
  "tool_input_field ''command'' stdin = Inr (JStr []) \<Longrightarrow> dangerous_command_blocker stdin = sys_exit 0"
  by (simp add: dangerous_command_blocker_def empty_command_allowed)

lemma guard_empty:
  "tool_input_field ''file_path'' stdin = Inr (JStr []) \<Longrightarrow> sensitive_file_guard stdin = sys_exit 0"
  by (simp add: sensitive_file_guard_def empty_path_allowed)

lemma format_empty:
  "tool_input_field ''file_path'' stdin = Inr (JStr []) \<Longrightarrow> auto_format env stdin = sys_exit 0"
  by (simp add: auto_format_def)

lemma test_empty:
  "tool_input_field ''file_path'' stdin = Inr (JStr []) \<Longrightarrow> test_on_change env stdin = sys_exit 0"
  by (simp add: test_on_change_def)

section \<open>Decoding the input record\<close>

text \<open>
  Claim C3 fails on input that does not decode: standard input that is not a JSON
  document, a document that is not a dictionary, or a \<open>tool_input\<close> that is not a
  dictionary raises an exception no hook catches, and the process status is 1, not 0.
\<close>

theorem malformed_input_counterexample:
  "status (dangerous_command_blocker None) = 1
   \<and> status (sensitive_file_guard None) = 1
   \<and> status (auto_format (world True (Completed 0)) None) = 1
   \<and> status (test_on_change (world True (Completed 0)) None) = 1
   \<and> status (dangerous_command_blocker (Some (JArr []))) = 1
   \<and> status (sensitive_file_guard (Some (JObj [(''tool_input'', JNull)]))) = 1"
  by (simp add: dangerous_command_blocker_def sensitive_file_guard_def auto_format_def
      test_on_change_def tool_input_field_def status_uncaught)

text \<open>
  Claim C3, amended.  Decoding degrades to empty text only for a missing key: a record
  that is a dictionary whose \<open>tool_input\<close> is absent or a dictionary always decodes, a
  missing \<open>command\<close> or \<open>file_path\<close> reads as empty text, and every hook then ends
  with status 0 and prints nothing.  On any other input every hook ends with an uncaught
  exception, process status 1.
\<close>

theorem decode_degrades_on_missing_keys_only:
  "(shaped stdin \<longrightarrow> (\<exists>v. tool_input_field name stdin = Inr v))
   \<and> (absent name stdin \<longrightarrow> tool_input_field name stdin = Inr (JStr []))
   \<and> (absent ''command'' stdin \<longrightarrow> dangerous_command_blocker stdin = sys_exit 0)
   \<and> (absent ''file_path'' stdin \<longrightarrow>
         sensitive_file_guard stdin = sys_exit 0
         \<and> auto_format env stdin = sys_exit 0
         \<and> test_on_change env stdin = sys_exit 0)
   \<and> (\<not> shaped stdin \<longrightarrow>
         (\<exists>e. dangerous_command_blocker stdin = uncaught e
              \<and> sensitive_file_guard stdin = uncaught e
              \<and> auto_format env stdin = uncaught e
              \<and> test_on_change env stdin = uncaught e)
         \<and> status (dangerous_command_blocker stdin) = 1
         \<and> status (sensitive_file_guard stdin) = 1
         \<and> status (auto_format env stdin) = 1
         \<and> status (test_on_change env stdin) = 1)"
proof -
  have bad: "(\<exists>e. dangerous_command_blocker stdin = uncaught e
              \<and> sensitive_file_guard stdin = uncaught e
              \<and> auto_format env stdin = uncaught e
              \<and> test_on_change env stdin = uncaught e)
         \<and> status (dangerous_command_blocker stdin) = 1
         \<and> status (sensitive_file_guard stdin) = 1
         \<and> status (auto_format env stdin) = 1
         \<and> status (test_on_change env stdin) = 1" if ns: "\<not> shaped stdin"
  proof -
    obtain e where e: "\<And>name. tool_input_field name stdin = Inl e"
      using unshaped_field [OF ns] by blast
    have "dangerous_command_blocker stdin = uncaught e" "sensitive_file_guard stdin = uncaught e"
      "auto_format env stdin = uncaught e" "test_on_change env stdin = uncaught e"
      by (simp_all add: dangerous_command_blocker_def sensitive_file_guard_def auto_format_def
          test_on_change_def e)
    then show ?thesis by (auto simp: status_uncaught)
  qed
  have ok: "sensitive_file_guard stdin = sys_exit 0
         \<and> auto_format env stdin = sys_exit 0
         \<and> test_on_change env stdin = sys_exit 0" if a: "absent ''file_path'' stdin"
    using absent_field [OF a] by (simp add: guard_empty format_empty test_empty)
  have cmd: "dangerous_command_blocker stdin = sys_exit 0" if a: "absent ''command'' stdin"
    using absent_field [OF a] by (rule blocker_empty)
  show ?thesis
  proof (intro conjI impI)
    show "\<exists>v. tool_input_field name stdin = Inr v" if "shaped stdin"
      using that by (rule shaped_field)
    show "tool_input_field name stdin = Inr (JStr [])" if "absent name stdin"
      using that by (rule absent_field)
    show "dangerous_command_blocker stdin = sys_exit 0" if "absent ''command'' stdin"
      using that by (rule cmd)
    show "sensitive_file_guard stdin = sys_exit 0" if "absent ''file_path'' stdin"
      using ok [OF that] by simp
    show "auto_format env stdin = sys_exit 0" if "absent ''file_path'' stdin"
      using ok [OF that] by simp
    show "test_on_change env stdin = sys_exit 0" if "absent ''file_path'' stdin"
      using ok [OF that] by simp
    show "\<exists>e. dangerous_command_blocker stdin = uncaught e
              \<and> sensitive_file_guard stdin = uncaught e
              \<and> auto_format env stdin = uncaught e
              \<and> test_on_change env stdin = uncaught e" if "\<not> shaped stdin"
      using bad [OF that] by (rule conjunct1)
    show "status (dangerous_command_blocker stdin) = 1" if "\<not> shaped stdin"
      using bad [OF that] by simp
    show "status (sensitive_file_guard stdin) = 1" if "\<not> shaped stdin"
      using bad [OF that] by simp
    show "status (auto_format env stdin) = 1" if "\<not> shaped stdin"
      using bad [OF that] by simp
    show "status (test_on_change env stdin) = 1" if "\<not> shaped stdin"
      using bad [OF that] by simp
  qed
qed

theorem decode_degrades_on_missing_keys_only_witness:
  "tool_input_field ''command'' (Some (JObj [])) = Inr (JStr [])
   \<and> dangerous_command_blocker (Some (JObj [])) = sys_exit 0
   \<and> sensitive_file_guard (Some (JObj [])) = sys_exit 0
   \<and> auto_format (world True NotFound) (Some (JObj [])) = sys_exit 0
   \<and> test_on_change (world True NotFound) (Some (JObj [])) = sys_exit 0
   \<and> status (dangerous_command_blocker None) = 1
   \<and> status (sensitive_file_guard None) = 1
   \<and> status (auto_format (world True NotFound) None) = 1
   \<and> status (test_on_change (world True NotFound) None) = 1"
proof -
  have a: "absent ''command'' (Some (JObj []))" "absent ''file_path'' (Some (JObj []))"
    by (simp_all add: absent_def)
  have n: "\<not> shaped None" by (simp add: shaped_def)
  note ok = decode_degrades_on_missing_keys_only
              [of "Some (JObj [])" "''command''" "world True NotFound"]
  note bad = decode_degrades_on_missing_keys_only
              [of None "''command''" "world True NotFound"]
  have 1: "tool_input_field ''command'' (Some (JObj [])) = Inr (JStr [])
     \<and> dangerous_command_blocker (Some (JObj [])) = sys_exit 0
     \<and> sensitive_file_guard (Some (JObj [])) = sys_exit 0
     \<and> auto_format (world True NotFound) (Some (JObj [])) = sys_exit 0
     \<and> test_on_change (world True NotFound) (Some (JObj [])) = sys_exit 0"
    using ok a by blast
  have 2: "status (dangerous_command_blocker None) = 1
     \<and> status (sensitive_file_guard None) = 1
     \<and> status (auto_format (world True NotFound) None) = 1
     \<and> status (test_on_change (world True NotFound) None) = 1"
    using bad n by blast
  show ?thesis using 1 2 by blast
qed

section \<open>Records with nothing to evaluate\<close>

text \<open>
  Claim C7.  On a record of the expected shape in which neither \<open>command\<close> nor
  \<open>file_path\<close> is populated (missing, or empty text), each of the four hooks ends with
  status 0 and prints nothing, on either stream.
\<close>

theorem unpopulated_record_is_allowed:
  assumes "unpopulated ''command'' stdin" and "unpopulated ''file_path'' stdin"
  shows "dangerous_command_blocker stdin = sys_exit 0
       \<and> sensitive_file_guard stdin = sys_exit 0
       \<and> auto_format env stdin = sys_exit 0
       \<and> test_on_change env stdin = sys_exit 0
       \<and> status (sys_exit 0) = 0 \<and> out (sys_exit 0) = [] \<and> err (sys_exit 0) = []"
proof -
  have c: "tool_input_field ''command'' stdin = Inr (JStr [])"
    using assms(1) by (rule unpopulated_field)
  have p: "tool_input_field ''file_path'' stdin = Inr (JStr [])"
    using assms(2) by (rule unpopulated_field)
  show ?thesis
    using blocker_empty [OF c] guard_empty [OF p] format_empty [OF p] test_empty [OF p]
    by (simp add: status_sys_exit) (simp add: sys_exit_def)
qed

theorem unpopulated_record_is_allowed_witness:
  "dangerous_command_blocker (Some (JObj [(''tool_input'', JObj [(''command'', JStr [])])])) = sys_exit 0
   \<and> sensitive_file_guard (Some (JObj [(''tool_input'', JObj [(''command'', JStr [])])])) = sys_exit 0
   \<and> auto_format (world True (Completed 1)) (Some (JObj [(''tool_input'', JObj [(''command'', JStr [])])])) = sys_exit 0
   \<and> test_on_change (world True (Completed 1)) (Some (JObj [(''tool_input'', JObj [(''command'', JStr [])])])) = sys_exit 0"
proof -
  have u: "unpopulated ''command'' (Some (JObj [(''tool_input'', JObj [(''command'', JStr [])])]))"
    "unpopulated ''file_path'' (Some (JObj [(''tool_input'', JObj [(''command'', JStr [])])]))"
    by (simp_all add: unpopulated_def)
  show ?thesis
    using unpopulated_record_is_allowed [OF u, of "world True (Completed 1)"] by simp
qed

section \<open>Exit statuses of the security hooks\<close>

lemma scan_patterns_ending:
  "\<forall>p\<in>set ps. re_compile p \<noteq> None \<Longrightarrow> ending (scan_patterns ps (JStr s)) \<in> {Exit 0, Exit 2}"
  by (induction ps) (auto simp: sys_exit_def command_blocked_def split: bool.splits)

lemma scan_dirs_ending: "ending (scan_dirs ds p) \<in> {Exit 0, Exit 2}"
  by (induction ds) (auto simp: sys_exit_def dir_blocked_def)

lemma scan_sensitive_ending: "ending (scan_sensitive ps p) \<in> {Exit 0, Exit 2}"
  using scan_dirs_ending [of sensitive_dirs p]
  by (induction ps) (auto simp: pattern_blocked_def)

lemma well_formed_fields:
  assumes "well_formed stdin"
  obtains c p where "tool_input_field ''command'' stdin = Inr (JStr c)"
    and "tool_input_field ''file_path'' stdin = Inr (JStr p)"
proof -
  from assms obtain vc vp where v: "tool_input_field ''command'' stdin = Inr vc"
    "tool_input_field ''file_path'' stdin = Inr vp" "is_text vc" "is_text vp"
    by (auto simp: well_formed_def split: sum.splits)
  from v(3) obtain c where "vc = JStr c" by (cases vc) simp_all
  moreover from v(4) obtain p where "vp = JStr p" by (cases vp) simp_all
  ultimately show ?thesis using v(1,2) that by simp
qed

text \<open>
  Claim C8.  On a well-formed record the command blocker and the sensitive-file guard end
  by \<open>sys.exit(0)\<close> or \<open>sys.exit(2)\<close>: their status is 0 or 2, never 1.
\<close>

theorem security_hooks_exit_0_or_2:
  assumes "well_formed stdin"
  shows "ending (dangerous_command_blocker stdin) \<in> {Exit 0, Exit 2}
       \<and> ending (sensitive_file_guard stdin) \<in> {Exit 0, Exit 2}
       \<and> status (dangerous_command_blocker stdin) \<in> {0, 2}
       \<and> status (sensitive_file_guard stdin) \<in> {0, 2}
       \<and> status (dangerous_command_blocker stdin) \<noteq> 1
       \<and> status (sensitive_file_guard stdin) \<noteq> 1"
proof -
  from assms obtain c p where c: "tool_input_field ''command'' stdin = Inr (JStr c)"
    and p: "tool_input_field ''file_path'' stdin = Inr (JStr p)"
    by (rule well_formed_fields)
  have b: "ending (dangerous_command_blocker stdin) \<in> {Exit 0, Exit 2}"
    using c scan_patterns_ending [OF all_compile, of c]
    by (simp add: dangerous_command_blocker_def)
  have g: "ending (sensitive_file_guard stdin) \<in> {Exit 0, Exit 2}"
    using p scan_sensitive_ending [of sensitive_patterns p]
    by (simp add: sensitive_file_guard_def)
  show ?thesis using b g by (auto simp: status_def)
qed

theorem security_hooks_exit_0_or_2_witness:
  "well_formed (command_record ''git push origin main --force'')
   \<and> status (dangerous_command_blocker (command_record ''git push origin main --force'')) \<in> {0, 2}
   \<and> status (sensitive_file_guard (command_record ''git push origin main --force'')) \<in> {0, 2}
   \<and> status (dangerous_command_blocker (command_record ''git push origin main --force'')) \<noteq> 1
   \<and> status (sensitive_file_guard (command_record ''git push origin main --force'')) \<noteq> 1"
proof -
  have w: "well_formed (command_record ''git push origin main --force'')"
    by (simp add: well_formed_def command_record_def tool_input_field_def)
  show ?thesis
    using security_hooks_exit_0_or_2 [OF w] w by blast
qed

text \<open>
  Claim C10.  When the file path does not exist, the formatting hook ends with status 0
  and hands no command to \<open>subprocess.run\<close>, whatever the extension of the path.
\<close>

theorem missing_file_is_not_formatted:
  assumes "tool_input_field ''file_path'' stdin = Inr (JStr p)" and "\<not> path_exists env p"
  shows "auto_format env stdin = sys_exit 0
       \<and> status (auto_format env stdin) = 0
       \<and> ran (auto_format env stdin) = []"
proof -
  have "auto_format env stdin = sys_exit 0"
    using assms by (simp add: auto_format_def)
  then show ?thesis by (simp add: status_sys_exit) (simp add: sys_exit_def)
qed

theorem missing_file_is_not_formatted_witness:
  "formatter_cmd ''/src/app.py'' = Some [''black'', ''--line-length'', ''100'', ''/src/app.py'']
   \<and> auto_format (world False (Completed 0)) (file_record ''/src/app.py'') = sys_exit 0
   \<and> status (auto_format (world False (Completed 0)) (file_record ''/src/app.py'')) = 0
   \<and> ran (auto_format (world False (Completed 0)) (file_record ''/src/app.py'')) = []"
proof -
  have e: "\<not> path_exists (world False (Completed 0)) ''/src/app.py''"
    by (simp add: world_def)
  show ?thesis
    using missing_file_is_not_formatted [OF field_file_record e] formatter_cmd_app by blast
qed

section \<open>Outcomes of the external command\<close>

lemma auto_format_text:
  "tool_input_field ''file_path'' stdin = Inr (JStr p) \<Longrightarrow> path_exists env p \<Longrightarrow> p \<noteq> [] \<Longrightarrow>
     auto_format env stdin = format_file env p"
  by (simp add: auto_format_def)

lemma formatter_cmd_nonempty: "formatter_cmd p = Some cmd \<Longrightarrow> p \<noteq> []"
  using formatter_cmd_empty by auto

lemma test_on_change_text:
  "tool_input_field ''file_path'' stdin = Inr (JStr p) \<Longrightarrow>
     test_on_change env stdin = (if skipped p then sys_exit 0 else run_tests env p)"
  using skipped_empty by (auto simp: test_on_change_def)

text \<open>
  Claim C4 fails for the testing hook: when its test command times out, the hook prints
  \<open>Test timeout for ...\<close> and ends with status 0, not 1.
\<close>

theorem test_timeout_counterexample:
  "run (world True TimedOut) (test_cmd ''/src/app.py'') 60 = TimedOut
   \<and> ran (test_on_change (world True TimedOut) (file_record ''/src/app.py''))
       = [test_cmd ''/src/app.py'']
   \<and> err (test_on_change (world True TimedOut) (file_record ''/src/app.py''))
       = [''Test timeout for /src/app.py'']
   \<and> status (test_on_change (world True TimedOut) (file_record ''/src/app.py'')) = 0"
  by (simp add: test_on_change_text [OF field_file_record] not_skipped_app run_tests_def
      world_def status_def)

text \<open>
  Claim C4, amended.  When the external command exceeds the timeout, the formatting hook
  prints \<open>Formatter timeout\<close> to standard error and ends with status 1; the testing
  hook prints \<open>Test timeout for\<close> and the path to standard error and ends with
  status 0.
\<close>

theorem timeout_outcomes:
  assumes "tool_input_field ''file_path'' stdin = Inr (JStr p)"
  shows "(path_exists env p \<and> formatter_cmd p = Some cmd \<and> run env cmd 10 = TimedOut \<longrightarrow>
            auto_format env stdin =
              \<lparr>ending = Exit 1, out = [], err = [''Formatter timeout''], ran = [cmd]\<rparr>
            \<and> status (auto_format env stdin) = 1)
       \<and> (\<not> skipped p \<and> getcwd env = Some dir \<and> run env (test_cmd p) 60 = TimedOut \<longrightarrow>
            test_on_change env stdin =
              \<lparr>ending = Exit 0, out = [], err = [''Test timeout for '' @ p],
               ran = [test_cmd p]\<rparr>
            \<and> status (test_on_change env stdin) = 0)"
proof (intro conjI impI)
  assume h: "path_exists env p \<and> formatter_cmd p = Some cmd \<and> run env cmd 10 = TimedOut"
  then have "p \<noteq> []" using formatter_cmd_nonempty by blast
  then have "auto_format env stdin = format_file env p"
    using assms h by (simp add: auto_format_text)
  then show f: "auto_format env stdin =
      \<lparr>ending = Exit 1, out = [], err = [''Formatter timeout''], ran = [cmd]\<rparr>"
    using h by (simp add: format_file_def)
  show "status (auto_format env stdin) = 1"
    unfolding f by (simp add: status_def)
next
  assume h: "\<not> skipped p \<and> getcwd env = Some dir \<and> run env (test_cmd p) 60 = TimedOut"
  then show t: "test_on_change env stdin =
      \<lparr>ending = Exit 0, out = [], err = [''Test timeout for '' @ p], ran = [test_cmd p]\<rparr>"
    using test_on_change_text [OF assms, of env] by (simp add: run_tests_def)
  show "status (test_on_change env stdin) = 0"
    unfolding t by (simp add: status_def)
qed

theorem timeout_outcomes_witness:
  "auto_format (world True TimedOut) (file_record ''/src/app.py'') =
     \<lparr>ending = Exit 1, out = [], err = [''Formatter timeout''],
      ran = [[''black'', ''--line-length'', ''100'', ''/src/app.py'']]\<rparr>
   \<and> status (auto_format (world True TimedOut) (file_record ''/src/app.py'')) = 1
   \<and> test_on_change (world True TimedOut) (file_record ''/src/app.py'') =
     \<lparr>ending = Exit 0, out = [], err = [''Test timeout for /src/app.py''],
      ran = [[''pytest'', ''-x'', ''-q'', ''--tb=short'']]\<rparr>
   \<and> status (test_on_change (world True TimedOut) (file_record ''/src/app.py'')) = 0"
proof -
  have e: "path_exists (world True TimedOut) ''/src/app.py''"
    "getcwd (world True TimedOut) = Some ''/work''"
    "run (world True TimedOut) [''black'', ''--line-length'', ''100'', ''/src/app.py''] 10 = TimedOut"
    "run (world True TimedOut) (test_cmd ''/src/app.py'') 60 = TimedOut"
    by (simp_all add: world_def)
  show ?thesis
    using timeout_outcomes [of "file_record ''/src/app.py''" "''/src/app.py''"
        "world True TimedOut" "[''black'', ''--line-length'', ''100'', ''/src/app.py'']"
        "''/work''", OF field_file_record]
      e formatter_cmd_app not_skipped_app test_cmd_app
    by (simp add: status_def)
qed

text \<open>
  Claim C6.  When the executable is not found, the formatting hook prints
  \<open>Formatter not available\<close> to standard error and ends with status 1; the testing
  hook ends with status 0 and prints nothing.
\<close>

theorem missing_executable_outcomes:
  assumes "tool_input_field ''file_path'' stdin = Inr (JStr p)"
  shows "(path_exists env p \<and> formatter_cmd p = Some cmd \<and> run env cmd 10 = NotFound \<longrightarrow>
            auto_format env stdin =
              \<lparr>ending = Exit 1, out = [], err = [''Formatter not available''], ran = [cmd]\<rparr>
            \<and> status (auto_format env stdin) = 1)
       \<and> (run env (test_cmd p) 60 = NotFound \<longrightarrow>
            status (test_on_change env stdin) = 0
            \<and> out (test_on_change env stdin) = []
            \<and> err (test_on_change env stdin) = [])"
proof (intro conjI impI)
  assume h: "path_exists env p \<and> formatter_cmd p = Some cmd \<and> run env cmd 10 = NotFound"
  then have "p \<noteq> []" using formatter_cmd_nonempty by blast
  then have "auto_format env stdin = format_file env p"
    using assms h by (simp add: auto_format_text)
  then show f: "auto_format env stdin =
      \<lparr>ending = Exit 1, out = [], err = [''Formatter not available''], ran = [cmd]\<rparr>"
    using h by (simp add: format_file_def)
  show "status (auto_format env stdin) = 1"
    unfolding f by (simp add: status_def)
next
  assume h: "run env (test_cmd p) 60 = NotFound"
  have t: "test_on_change env stdin = sys_exit 0
         \<or> test_on_change env stdin =
              \<lparr>ending = Exit 0, out = [], err = [], ran = [test_cmd p]\<rparr>"
    using h test_on_change_text [OF assms, of env]
    by (auto simp: run_tests_def split: option.splits)
  show "status (test_on_change env stdin) = 0"
    using t by (auto simp: status_def sys_exit_def)
  show "out (test_on_change env stdin) = []"
    using t by (auto simp: sys_exit_def)
  show "err (test_on_change env stdin) = []"
    using t by (auto simp: sys_exit_def)
qed

theorem missing_executable_outcomes_witness:
  "auto_format (world True NotFound) (file_record ''/src/app.py'') =
     \<lparr>ending = Exit 1, out = [], err = [''Formatter not available''],
      ran = [[''black'', ''--line-length'', ''100'', ''/src/app.py'']]\<rparr>
   \<and> status (auto_format (world True NotFound) (file_record ''/src/app.py'')) = 1
   \<and> \<not> skipped ''/src/app.py''
   \<and> status (test_on_change (world True NotFound) (file_record ''/src/app.py'')) = 0
   \<and> out (test_on_change (world True NotFound) (file_record ''/src/app.py'')) = []
   \<and> err (test_on_change (world True NotFound) (file_record ''/src/app.py'')) = []"
proof -
  have e: "path_exists (world True NotFound) ''/src/app.py''"
    "run (world True NotFound) [''black'', ''--line-length'', ''100'', ''/src/app.py''] 10 = NotFound"
    "run (world True NotFound) (test_cmd ''/src/app.py'') 60 = NotFound"
    by (simp_all add: world_def)
  show ?thesis
    using missing_executable_outcomes [of "file_record ''/src/app.py''" "''/src/app.py''"
        "world True NotFound" "[''black'', ''--line-length'', ''100'', ''/src/app.py'']",
        OF field_file_record]
      e formatter_cmd_app not_skipped_app
    by (simp add: status_def)
qed

lemma skipped_text:
  "skipped p \<longleftrightarrow>
     (splitext_ext p \<notin> {''.ts'', ''.tsx'', ''.js'', ''.jsx'', ''.py''}
      \<or> contains ''test'' (lower p) \<or> contains ''__tests__'' p \<or> contains ''.claude'' p)"
  by (simp add: skipped_def test_extensions_def)

lemma test_on_change_undecoded:
  "tool_input_field ''file_path'' stdin = Inl e \<Longrightarrow> test_on_change env stdin = uncaught e"
  by (simp add: test_on_change_def)

lemma test_on_change_nontext:
  "tool_input_field ''file_path'' stdin = Inr v \<Longrightarrow> truthy v \<Longrightarrow> \<not> is_text v \<Longrightarrow>
     test_on_change env stdin = uncaught TypeError"
  by (cases v) (simp_all add: test_on_change_def)

text \<open>
  Claim C9 fails on input that does not reach the \<open>try\<close> statement: when standard input
  is not a JSON document, or \<open>file_path\<close> is a number, the testing hook ends with status 1
  although no test command has been run.
\<close>

theorem test_hook_crash_counterexample:
  "status (test_on_change (world True (Completed 0)) None) = 1
   \<and> ran (test_on_change (world True (Completed 0)) None) = []
   \<and> status (test_on_change (world True (Completed 0))
        (Some (JObj [(''tool_input'', JObj [(''file_path'', JNum 7)])]))) = 1
   \<and> ran (test_on_change (world True (Completed 0))
        (Some (JObj [(''tool_input'', JObj [(''file_path'', JNum 7)])]))) = []"
  by (simp add: test_on_change_def tool_input_field_def status_def uncaught_def)

text \<open>
  Claim C9, amended.  On a record whose \<open>file_path\<close> is text or missing, the testing
  hook ends with status 1 exactly when it has handed the test command to
  \<open>subprocess.run\<close> and the command has completed with a nonzero return code; otherwise
  its status is 0.  It is 0 in particular when the extension is none of \<open>.ts\<close>,
  \<open>.tsx\<close>, \<open>.js\<close>, \<open>.jsx\<close>, \<open>.py\<close>, when the path contains \<open>test\<close> in any casing,
  \<open>__tests__\<close> or \<open>.claude\<close> (the hook then leaves by \<open>sys.exit(0)\<close> with nothing run),
  when the runner is missing, when the command times out and when another exception is
  raised.  On input that does not decode, and on a \<open>file_path\<close> that is not text and
  not false, the hook ends with an uncaught exception: status 1, with no test command run.
\<close>

theorem test_hook_status_1_iff_tests_fail:
  "(tool_input_field ''file_path'' stdin = Inr (JStr p) \<longrightarrow>
      (status (test_on_change env stdin) = 1 \<longleftrightarrow>
         ran (test_on_change env stdin) = [test_cmd p]
         \<and> (\<exists>rc. run env (test_cmd p) 60 = Completed rc \<and> rc \<noteq> 0))
      \<and> (status (test_on_change env stdin) \<noteq> 1 \<longrightarrow> status (test_on_change env stdin) = 0)
      \<and> (splitext_ext p \<notin> {''.ts'', ''.tsx'', ''.js'', ''.jsx'', ''.py''}
           \<or> contains ''test'' (lower p) \<or> contains ''__tests__'' p \<or> contains ''.claude'' p
          \<longrightarrow> test_on_change env stdin = sys_exit 0)
      \<and> (run env (test_cmd p) 60 = NotFound \<or> run env (test_cmd p) 60 = TimedOut
           \<or> (\<exists>e. run env (test_cmd p) 60 = Failed e)
           \<or> run env (test_cmd p) 60 = Completed 0
          \<longrightarrow> status (test_on_change env stdin) = 0))
   \<and> ((\<exists>e. tool_input_field ''file_path'' stdin = Inl e)
        \<or> (\<exists>v. tool_input_field ''file_path'' stdin = Inr v \<and> truthy v \<and> \<not> is_text v)
       \<longrightarrow> status (test_on_change env stdin) = 1 \<and> ran (test_on_change env stdin) = [])"
proof (intro conjI impI)
  assume "(\<exists>e. tool_input_field ''file_path'' stdin = Inl e)
        \<or> (\<exists>v. tool_input_field ''file_path'' stdin = Inr v \<and> truthy v \<and> \<not> is_text v)"
  then obtain e where u: "test_on_change env stdin = uncaught e"
    using test_on_change_undecoded test_on_change_nontext by blast
  show "status (test_on_change env stdin) = 1"
    unfolding u by (rule status_uncaught)
  show "ran (test_on_change env stdin) = []"
    unfolding u by (simp add: uncaught_def)
next
  assume f: "tool_input_field ''file_path'' stdin = Inr (JStr p)"
  note t = test_on_change_text [OF f, of env]
  have main: "(status (test_on_change env stdin) = 1 \<longleftrightarrow>
         ran (test_on_change env stdin) = [test_cmd p]
         \<and> (\<exists>rc. run env (test_cmd p) 60 = Completed rc \<and> rc \<noteq> 0))
      \<and> (status (test_on_change env stdin) \<noteq> 1 \<longrightarrow> status (test_on_change env stdin) = 0)
      \<and> (skipped p \<longrightarrow> test_on_change env stdin = sys_exit 0)
      \<and> (run env (test_cmd p) 60 = NotFound \<or> run env (test_cmd p) 60 = TimedOut
           \<or> (\<exists>e. run env (test_cmd p) 60 = Failed e)
           \<or> run env (test_cmd p) 60 = Completed 0
          \<longrightarrow> status (test_on_change env stdin) = 0)"
  proof (cases "skipped p")
    case True
    then show ?thesis using t by (simp add: status_sys_exit) (simp add: sys_exit_def)
  next
    case False
    then have r: "test_on_change env stdin = run_tests env p" using t by simp
    show ?thesis
    proof (cases "getcwd env")
      case None
      then show ?thesis using False
        unfolding r by (simp add: run_tests_def status_sys_exit) (simp add: sys_exit_def)
    next
      case (Some dir)
      then show ?thesis using False
        unfolding r by (cases "run env (test_cmd p) 60") (simp_all add: run_tests_def status_def)
    qed
  qed
  show "status (test_on_change env stdin) = 1 \<longleftrightarrow>
         ran (test_on_change env stdin) = [test_cmd p]
         \<and> (\<exists>rc. run env (test_cmd p) 60 = Completed rc \<and> rc \<noteq> 0)"
    using main by (rule conjunct1)
  show "status (test_on_change env stdin) = 0" if "status (test_on_change env stdin) \<noteq> 1"
    using main that by blast
  show "test_on_change env stdin = sys_exit 0"
    if "splitext_ext p \<notin> {''.ts'', ''.tsx'', ''.js'', ''.jsx'', ''.py''}
           \<or> contains ''test'' (lower p) \<or> contains ''__tests__'' p \<or> contains ''.claude'' p"
    using main that skipped_text [of p] by blast
  show "status (test_on_change env stdin) = 0"
    if "run env (test_cmd p) 60 = NotFound \<or> run env (test_cmd p) 60 = TimedOut
           \<or> (\<exists>e. run env (test_cmd p) 60 = Failed e)
           \<or> run env (test_cmd p) 60 = Completed 0"
    using main that by blast
qed

theorem test_hook_status_1_iff_tests_fail_witness:
  "status (test_on_change (world True (Completed 1)) (file_record ''/src/app.py'')) = 1
   \<and> ran (test_on_change (world True (Completed 1)) (file_record ''/src/app.py''))
       = [[''pytest'', ''-x'', ''-q'', ''--tb=short'']]
   \<and> status (test_on_change (world True (Failed ''denied'')) (file_record ''/src/app.py'')) = 0
   \<and> test_on_change (world True (Completed 1)) (file_record ''/src/test_app.py'') = sys_exit 0
   \<and> status (test_on_change (world True (Completed 0)) None) = 1
   \<and> ran (test_on_change (world True (Completed 0)) None) = []"
proof -
  have f: "run (world True (Completed 1)) (test_cmd ''/src/app.py'') 60 = Completed 1"
    "run (world True (Failed ''denied'')) (test_cmd ''/src/app.py'') 60 = Failed ''denied''"
    by (simp_all add: world_def)
  have r: "ran (test_on_change (world True (Completed 1)) (file_record ''/src/app.py''))
       = [test_cmd ''/src/app.py'']"
    by (simp add: test_on_change_text [OF field_file_record] not_skipped_app run_tests_def
        world_def)
  have c: "contains ''test'' (lower ''/src/test_app.py'')"
    by (simp add: text_eval)
  have n: "tool_input_field ''file_path'' None = Inl JSONDecodeError"
    by (simp add: tool_input_field_def)
  note a = test_hook_status_1_iff_tests_fail [of "file_record ''/src/app.py''"
      "''/src/app.py''" "world True (Completed 1)"]
  note b = test_hook_status_1_iff_tests_fail [of "file_record ''/src/app.py''"
      "''/src/app.py''" "world True (Failed ''denied'')"]
  note d = test_hook_status_1_iff_tests_fail [of "file_record ''/src/test_app.py''"
      "''/src/test_app.py''" "world True (Completed 1)"]
  note e = test_hook_status_1_iff_tests_fail [of None p "world True (Completed 0)" for p]
  have 1: "status (test_on_change (world True (Completed 1)) (file_record ''/src/app.py'')) = 1"
    using a field_file_record [of "''/src/app.py''"] r f(1) by simp
  have 2: "status (test_on_change (world True (Failed ''denied'')) (file_record ''/src/app.py'')) = 0"
    using b field_file_record [of "''/src/app.py''"] f(2) by simp
  have 3: "test_on_change (world True (Completed 1)) (file_record ''/src/test_app.py'') = sys_exit 0"
    using d field_file_record [of "''/src/test_app.py''"] c by blast
  have 4: "status (test_on_change (world True (Completed 0)) None) = 1
     \<and> ran (test_on_change (world True (Completed 0)) None) = []"
    using e n by blast
  show ?thesis using 1 2 3 4 r test_cmd_app by simp
qed

end
